theory Spec2Isabelle
  imports Complex_Main
begin

section \<open>The calendar component of react-native-ui-kitten\<close>

text \<open>
  A shallow embedding of \<^verbatim>\<open>src/framework/ui/calendar/calendar.component.tsx\<close>:
  the state of \<^verbatim>\<open>CalendarComponent\<close>, its event handlers, the predicates it
  hands to the pickers and the data it builds for them. Rendering and styling are
  left out. The component is generic in the date type \<open>'d\<close>; it touches dates only
  through the date service it receives as a property.
\<close>

subsection \<open>View modes\<close>

datatype CalendarViewMode = DATE | MONTH | YEAR

text \<open>
  Modelled from the spec: \<^verbatim>\<open>CalendarViewModes\<close> lives in \<^verbatim>\<open>./type\<close>, which
  is not among the sources. By the spec its drill-down transition, applied on
  selection, is Year to Month to Day to Day: it saturates at Day.
\<close>

fun pickNext :: "CalendarViewMode \<Rightarrow> CalendarViewMode" where
  "pickNext YEAR = MONTH"
| "pickNext MONTH = DATE"
| "pickNext DATE = DATE"

text \<open>
  Modelled from the spec: the cycle transition of the same absent
  \<^verbatim>\<open>CalendarViewModes\<close>, used when the header title is pressed, is Day to Month
  to Year to Day: it wraps.
\<close>

fun navigationNext :: "CalendarViewMode \<Rightarrow> CalendarViewMode" where
  "navigationNext DATE = MONTH"
| "navigationNext MONTH = YEAR"
| "navigationNext YEAR = DATE"

subsection \<open>The date service, the properties and the state\<close>

text \<open>
  \<^verbatim>\<open>DateService<D>\<close> is the capability interface of \<^verbatim>\<open>./service/date.service\<close>;
  only the members the component calls in the modelled code are fields here. Years,
  0-based months and days of the month are JavaScript numbers holding integers.
  \<^verbatim>\<open>today()\<close> reads the clock; one fixed value stands for it during a run.
\<close>

record 'd DateService =
  today :: 'd
  getYear :: "'d \<Rightarrow> int"
  getMonth :: "'d \<Rightarrow> int"
  getDate :: "'d \<Rightarrow> int"
  createDate :: "int \<Rightarrow> int \<Rightarrow> int \<Rightarrow> 'd"
  addMonth :: "'d \<Rightarrow> int \<Rightarrow> 'd"
  addYear :: "'d \<Rightarrow> int \<Rightarrow> 'd"
  getYearStart :: "'d \<Rightarrow> 'd"
  getYearEnd :: "'d \<Rightarrow> 'd"
  getMonthStart :: "'d \<Rightarrow> 'd"
  isBetweenIncludingSafe :: "'d \<Rightarrow> 'd \<Rightarrow> 'd \<Rightarrow> bool"

text \<open>What a callback of the hosting application throws.\<close>

datatype error = CallbackThrew

text \<open>
  \<^verbatim>\<open>ComponentProps<D>\<close>. An optional property is an \<open>option\<close>. The filter may
  throw, so it returns a sum; \<^verbatim>\<open>onSelect\<close> acts on the hosting application, whose
  state has type \<open>'h\<close>.
\<close>

record ('d, 'h) ComponentProps =
  min_prop :: "'d option"
  max_prop :: "'d option"
  date_prop :: "'d option"
  dateService :: "'d DateService"
  startView :: CalendarViewMode
  filter_prop :: "('d \<Rightarrow> error + bool) option"
  onSelect :: "('d \<Rightarrow> 'h \<Rightarrow> 'h) option"

record 'd State =
  viewMode :: CalendarViewMode
  visibleDate :: 'd

text \<open>The state initialiser (lines 256-259).\<close>

definition initialState :: "('d, 'h) ComponentProps \<Rightarrow> 'd State" where
  "initialState p =
     \<lparr>viewMode = startView p,
      visibleDate = getMonthStart (dateService p) (today (dateService p))\<rparr>"

text \<open>The getters \<^verbatim>\<open>min\<close>, \<^verbatim>\<open>max\<close> and \<^verbatim>\<open>date\<close> (lines 267-277).\<close>

definition get_min :: "('d, 'h) ComponentProps \<Rightarrow> 'd" where
  "get_min p =
     (case min_prop p of
        Some m \<Rightarrow> m
      | None \<Rightarrow> getYearStart (dateService p) (today (dateService p)))"

definition get_max :: "('d, 'h) ComponentProps \<Rightarrow> 'd" where
  "get_max p =
     (case max_prop p of
        Some m \<Rightarrow> m
      | None \<Rightarrow> getYearEnd (dateService p) (today (dateService p)))"

definition get_date :: "('d, 'h) ComponentProps \<Rightarrow> 'd" where
  "get_date p =
     (case date_prop p of
        Some d \<Rightarrow> d
      | None \<Rightarrow> today (dateService p))"

subsection \<open>Event handlers\<close>

text \<open>
  \<^verbatim>\<open>onDateSelect\<close> (lines 279-283) never calls \<^verbatim>\<open>setState\<close>; it only forwards
  the date to the host's callback when there is one.
\<close>

definition onDateSelect ::
  "('d, 'h) ComponentProps \<Rightarrow> 'd \<Rightarrow> 'd State \<times> 'h \<Rightarrow> 'd State \<times> 'h" where
  "onDateSelect p d w =
     (case onSelect p of
        Some f \<Rightarrow> (fst w, f d (snd w))
      | None \<Rightarrow> w)"

definition onMonthSelect :: "('d, 'h) ComponentProps \<Rightarrow> 'd \<Rightarrow> 'd State \<Rightarrow> 'd State" where
  "onMonthSelect p d s =
     (let ds = dateService p;
          nextVisibleDate =
            createDate ds (getYear ds (visibleDate s)) (getMonth ds d) (getDate ds (visibleDate s))
      in \<lparr>viewMode = pickNext (viewMode s), visibleDate = nextVisibleDate\<rparr>)"

definition onYearSelect :: "('d, 'h) ComponentProps \<Rightarrow> 'd \<Rightarrow> 'd State \<Rightarrow> 'd State" where
  "onYearSelect p d s =
     (let ds = dateService p;
          nextVisibleDate =
            createDate ds (getYear ds d) (getMonth ds (visibleDate s)) (getDate ds (visibleDate s))
      in \<lparr>viewMode = pickNext (viewMode s), visibleDate = nextVisibleDate\<rparr>)"

definition onTodayPress :: "('d, 'h) ComponentProps \<Rightarrow> 'd State \<Rightarrow> 'd State" where
  "onTodayPress p s = \<lparr>viewMode = DATE, visibleDate = today (dateService p)\<rparr>"

definition onPickerNavigationPress :: "'d State \<Rightarrow> 'd State" where
  "onPickerNavigationPress s = s\<lparr>viewMode := navigationNext (viewMode s)\<rparr>"

text \<open>\<^verbatim>\<open>YEARS_IN_VIEW\<close>, \<^verbatim>\<open>MONTHS_IN_COLUMN\<close>, \<^verbatim>\<open>YEARS_IN_COLUMN\<close> (lines 245-247).\<close>

definition YEARS_IN_VIEW :: nat where "YEARS_IN_VIEW = 12"
definition MONTHS_IN_COLUMN :: nat where "MONTHS_IN_COLUMN = 4"
definition YEARS_IN_COLUMN :: nat where "YEARS_IN_COLUMN = 4"

text \<open>
  Modelled from the spec: \<^verbatim>\<open>DateService.MONTHS_IN_YEAR\<close> is a static member of the
  absent \<^verbatim>\<open>./service/date.service\<close>; the spec has 12 sequential months in a year.
\<close>

definition MONTHS_IN_YEAR :: nat where "MONTHS_IN_YEAR = 12"

definition onDatePickerPagerSelect ::
  "('d, 'h) ComponentProps \<Rightarrow> int \<Rightarrow> 'd State \<Rightarrow> 'd State" where
  "onDatePickerPagerSelect p index s =
     (let ds = dateService p;
          yearStart = getYearStart ds (visibleDate s)
      in s\<lparr>visibleDate := addMonth ds yearStart index\<rparr>)"

text \<open>
  \<^verbatim>\<open>onYearPickerPagerSelect\<close> (lines 502-507) reads the property \<^verbatim>\<open>this.props.min\<close>,
  not the getter. With the property omitted the service is handed \<^verbatim>\<open>undefined\<close>,
  which is no value of \<open>'d\<close>: the handler has no result in the model then.
\<close>

definition onYearPickerPagerSelect ::
  "('d, 'h) ComponentProps \<Rightarrow> int \<Rightarrow> 'd State \<Rightarrow> 'd State option" where
  "onYearPickerPagerSelect p index s =
     (case min_prop p of
        None \<Rightarrow> None
      | Some m \<Rightarrow>
          (let ds = dateService p;
               yearStart = getYearStart ds m
           in Some (s\<lparr>visibleDate := addYear ds yearStart (index * int YEARS_IN_VIEW)\<rparr>)))"

subsection \<open>Cell predicates\<close>

text \<open>
  \<^verbatim>\<open>isDateFitsFilter\<close> (lines 409-411) is
  \<^verbatim>\<open>this.props.filter && !this.props.filter(date) || false\<close>: false without a filter,
  otherwise the negation of the filter's answer.
\<close>

definition isDateFitsFilter :: "('d, 'h) ComponentProps \<Rightarrow> 'd \<Rightarrow> error + bool" where
  "isDateFitsFilter p d =
     (case filter_prop p of
        None \<Rightarrow> Inr False
      | Some f \<Rightarrow> (case f d of Inl e \<Rightarrow> Inl e | Inr b \<Rightarrow> Inr (\<not> b)))"

definition isDateFitsBounds :: "('d, 'h) ComponentProps \<Rightarrow> 'd \<Rightarrow> bool" where
  "isDateFitsBounds p d = isBetweenIncludingSafe (dateService p) d (get_min p) (get_max p)"

text \<open>
  \<^verbatim>\<open>!this.isDateFitsBounds(date) || this.isDateFitsFilter(date)\<close> (lines 385-395):
  \<^verbatim>\<open>||\<close> does not evaluate its right operand when the left one is true.
\<close>

definition isDayDisabled :: "('d, 'h) ComponentProps \<Rightarrow> 'd \<Rightarrow> error + bool" where
  "isDayDisabled p d = (if \<not> isDateFitsBounds p d then Inr True else isDateFitsFilter p d)"

definition isMonthDisabled :: "('d, 'h) ComponentProps \<Rightarrow> 'd \<Rightarrow> error + bool" where
  "isMonthDisabled p d = (if \<not> isDateFitsBounds p d then Inr True else isDateFitsFilter p d)"

definition isYearDisabled :: "('d, 'h) ComponentProps \<Rightarrow> 'd \<Rightarrow> error + bool" where
  "isYearDisabled p d = (if \<not> isDateFitsBounds p d then Inr True else isDateFitsFilter p d)"

subsection \<open>Picker and pager data\<close>

text \<open>
  Modelled from the spec: \<^verbatim>\<open>range\<close> comes from \<^verbatim>\<open>./service/helpers\<close>, which is
  not among the sources. The spec has the grids built by generating a number of
  sequential items: \<open>range_list bound producer\<close> is the sequence of \<open>producer\<close> at
  the indices from 0 up to \<open>bound\<close> (excluded).
\<close>

definition range_list :: "nat \<Rightarrow> (int \<Rightarrow> 'a) \<Rightarrow> 'a list" where
  "range_list bound producer = map (\<lambda>index. producer (int index)) [0..<bound]"

text \<open>
  Modelled from the spec: \<^verbatim>\<open>batch\<close> comes from the same absent
  \<^verbatim>\<open>./service/helpers\<close>. By the spec it is a generic "chunk sequence into
  fixed-size rows" operation: it cuts rows of \<open>batchSize\<close> items off the front
  until nothing is left. The spec says nothing of a row width of 0; no row is
  produced then.
\<close>

function batch :: "'a list \<Rightarrow> nat \<Rightarrow> 'a list list" where
  "batch target batchSize =
     (if target = [] \<or> batchSize = 0 then []
      else take batchSize target # batch (drop batchSize target) batchSize)"
  by pat_completeness auto
termination
  by (relation "measure (\<lambda>(target, batchSize). length target)") auto

declare batch.simps [simp del]

text \<open>\<^verbatim>\<open>createMonthPickerData\<close> and \<^verbatim>\<open>createYearPickerData\<close> (lines 436-452).\<close>

definition createMonthPickerData :: "('d, 'h) ComponentProps \<Rightarrow> 'd \<Rightarrow> 'd list list" where
  "createMonthPickerData p date =
     (let ds = dateService p;
          yearStart = getYearStart ds date;
          monthRange = range_list MONTHS_IN_YEAR (\<lambda>index. addMonth ds yearStart index)
      in batch monthRange MONTHS_IN_COLUMN)"

definition createYearPickerData :: "('d, 'h) ComponentProps \<Rightarrow> 'd \<Rightarrow> 'd list list" where
  "createYearPickerData p date =
     (let ds = dateService p;
          yearStart = getYearStart ds date;
          yearRange = range_list YEARS_IN_VIEW (\<lambda>index. addYear ds yearStart index)
      in batch yearRange YEARS_IN_COLUMN)"

text \<open>\<^verbatim>\<open>createDayPickerPagerData\<close> (lines 454-460): one page for each month.\<close>

definition createDayPickerPagerData :: "('d, 'h) ComponentProps \<Rightarrow> 'd \<Rightarrow> 'd list" where
  "createDayPickerPagerData p date =
     (let ds = dateService p;
          yearStart = getYearStart ds date
      in range_list MONTHS_IN_YEAR (\<lambda>index. addMonth ds yearStart index))"

text \<open>
  \<^verbatim>\<open>createYearPickerPagerData\<close> (lines 462-469) makes \<^verbatim>\<open>numberOfYearPages\<close>
  pages, page \<open>index\<close> starting \<open>12 * index\<close> years after \<^verbatim>\<open>min\<close>. The number is
  a quotient that is not rounded, at least 1; the indices \<^verbatim>\<open>range\<close> produces,
  and so the indices of the pages, are integers from 0 that lie below it.
\<close>

definition numberOfYearPages :: "('d, 'h) ComponentProps \<Rightarrow> real" where
  "numberOfYearPages p =
     (let ds = dateService p;
          numberOfYears = getYear ds (get_max p) - getYear ds (get_min p)
      in max (real_of_int numberOfYears / real YEARS_IN_VIEW) 1)"

definition isYearPickerPage :: "('d, 'h) ComponentProps \<Rightarrow> int \<Rightarrow> bool" where
  "isYearPickerPage p index = (0 \<le> index \<and> real_of_int index < numberOfYearPages p)"

definition yearPickerPageDate :: "('d, 'h) ComponentProps \<Rightarrow> int \<Rightarrow> 'd" where
  "yearPickerPageDate p index =
     addYear (dateService p) (get_min p) (index * int YEARS_IN_VIEW)"

subsection \<open>Pager indices\<close>

text \<open>
  The selected index of each pager and the predicate that tells the pager which
  pages to load (lines 417-428, 565 and 611-612). Page indices are integers;
  \<^verbatim>\<open>Math.floor\<close> of a quotient of integers is \<open>div\<close>, which rounds down.
\<close>

definition visibleDayPickerIndex :: "('d, 'h) ComponentProps \<Rightarrow> 'd State \<Rightarrow> int" where
  "visibleDayPickerIndex p s = getMonth (dateService p) (visibleDate s)"

definition isDayPickerInViewPort :: "('d, 'h) ComponentProps \<Rightarrow> 'd State \<Rightarrow> int \<Rightarrow> bool" where
  "isDayPickerInViewPort p s index =
     (index = visibleDayPickerIndex p s \<or> \<bar>index - visibleDayPickerIndex p s\<bar> = 1)"

definition visibleYearPickerIndex :: "('d, 'h) ComponentProps \<Rightarrow> 'd State \<Rightarrow> int" where
  "visibleYearPickerIndex p s =
     (let ds = dateService p;
          numberOfYears = getYear ds (visibleDate s) - getYear ds (get_min p)
      in numberOfYears div int YEARS_IN_VIEW)"

definition isYearPickerInViewPort :: "('d, 'h) ComponentProps \<Rightarrow> 'd State \<Rightarrow> int \<Rightarrow> bool" where
  "isYearPickerInViewPort p s index =
     (index = visibleYearPickerIndex p s \<or> \<bar>index - visibleYearPickerIndex p s\<bar> = 1)"

subsection \<open>Pressing a picker cell\<close>

text \<open>
  Modelled from the spec: the picker and its cells (\<^verbatim>\<open>./components/picker\<close>) are
  not among the sources. The component hands each picker a predicate
  \<^verbatim>\<open>isItemDisabled\<close> and a handler \<^verbatim>\<open>onSelect\<close>; by the spec a disabled cell
  does not react ("selecting a date outside [min, max] has no effect if the cell is
  disabled"), so a press reaches the handler only when the predicate answered
  false. A cell whose predicate threw was never rendered.
\<close>

definition pickerCellPress :: "error + bool \<Rightarrow> ('w \<Rightarrow> 'w) \<Rightarrow> 'w \<Rightarrow> 'w" where
  "pickerCellPress disabled handler w =
     (case disabled of
        Inr False \<Rightarrow> handler w
      | _ \<Rightarrow> w)"

text \<open>
  The three pickers as \<^verbatim>\<open>renderDatePickerElement\<close>, \<^verbatim>\<open>renderMonthPickerElement\<close>
  and \<^verbatim>\<open>renderYearPickerElement\<close> wire them (lines 549-608).
\<close>

definition dayCellPress ::
  "('d, 'h) ComponentProps \<Rightarrow> 'd \<Rightarrow> 'd State \<times> 'h \<Rightarrow> 'd State \<times> 'h" where
  "dayCellPress p d = pickerCellPress (isDayDisabled p d) (onDateSelect p d)"

definition monthCellPress :: "('d, 'h) ComponentProps \<Rightarrow> 'd \<Rightarrow> 'd State \<Rightarrow> 'd State" where
  "monthCellPress p d = pickerCellPress (isMonthDisabled p d) (onMonthSelect p d)"

definition yearCellPress :: "('d, 'h) ComponentProps \<Rightarrow> 'd \<Rightarrow> 'd State \<Rightarrow> 'd State" where
  "yearCellPress p d = pickerCellPress (isYearDisabled p d) (onYearSelect p d)"

subsection \<open>Reachable states\<close>

text \<open>
  The states the component reaches from its initial state: the header title is
  pressed, "today" is pressed, the day pager selects one of its pages, the year
  pager selects one of its pages, a cell of the month grid shown for the visible
  date is pressed, or a cell of the year grid of a page of the year pager is
  pressed. Pressing a day cell leaves the state as it is.
\<close>

inductive reachable :: "('d, 'h) ComponentProps \<Rightarrow> 'd State \<Rightarrow> bool"
  for p :: "('d, 'h) ComponentProps" where
  r_init: "reachable p (initialState p)"
| r_title: "reachable p s \<Longrightarrow> reachable p (onPickerNavigationPress s)"
| r_today: "reachable p s \<Longrightarrow> reachable p (onTodayPress p s)"
| r_dayPage: "reachable p s \<Longrightarrow> 0 \<le> index
    \<Longrightarrow> index < int (length (createDayPickerPagerData p (visibleDate s)))
    \<Longrightarrow> reachable p (onDatePickerPagerSelect p index s)"
| r_yearPage: "reachable p s \<Longrightarrow> isYearPickerPage p index
    \<Longrightarrow> onYearPickerPagerSelect p index s = Some s'
    \<Longrightarrow> reachable p s'"
| r_monthCell: "reachable p s
    \<Longrightarrow> d \<in> set (concat (createMonthPickerData p (visibleDate s)))
    \<Longrightarrow> reachable p (monthCellPress p d s)"
| r_yearCell: "reachable p s \<Longrightarrow> isYearPickerPage p index
    \<Longrightarrow> d \<in> set (concat (createYearPickerData p (yearPickerPageDate p index)))
    \<Longrightarrow> reachable p (yearCellPress p d s)"

subsection \<open>Date services\<close>

text \<open>
  What the component relies on when it keeps the visible date inside whole-year
  bounds, said of a date service \<open>ds\<close> and the dates \<open>V\<close> it works with (for the
  native service: the valid dates at midnight): today is such a date; the start of
  a month or of a year, a month less than twelve months after a year start, a date
  some years later, and a date rebuilt from a year, the month of one date and the
  day of another are such dates, with the year one expects; the end of a year is
  in that year; and a date lies between the start of one year and the end of
  another exactly when its year lies between the two.
\<close>

definition lawfulDateService :: "'d DateService \<Rightarrow> ('d \<Rightarrow> bool) \<Rightarrow> bool" where
  "lawfulDateService ds V \<longleftrightarrow>
     V (today ds)
   \<and> (\<forall>d. V d \<longrightarrow> V (getMonthStart ds d) \<and> getYear ds (getMonthStart ds d) = getYear ds d)
   \<and> (\<forall>d. V d \<longrightarrow> V (getYearStart ds d) \<and> getYear ds (getYearStart ds d) = getYear ds d)
   \<and> (\<forall>d k. V d \<longrightarrow> 0 \<le> k \<longrightarrow> k < 12 \<longrightarrow>
          V (addMonth ds (getYearStart ds d) k)
        \<and> getYear ds (addMonth ds (getYearStart ds d) k) = getYear ds d)
   \<and> (\<forall>d. V d \<longrightarrow> getYear ds (getYearEnd ds d) = getYear ds d)
   \<and> (\<forall>d n. V d \<longrightarrow> 0 \<le> n \<longrightarrow>
          V (addYear ds d n) \<and> getYear ds (addYear ds d n) = getYear ds d + n)
   \<and> (\<forall>y a b. V a \<longrightarrow> V b \<longrightarrow>
          V (createDate ds y (getMonth ds a) (getDate ds b))
        \<and> getYear ds (createDate ds y (getMonth ds a) (getDate ds b)) = y)
   \<and> (\<forall>d lo hi. V d \<longrightarrow> V lo \<longrightarrow> V hi \<longrightarrow>
          isBetweenIncludingSafe ds d (getYearStart ds lo) (getYearEnd ds hi)
          = (getYear ds lo \<le> getYear ds d \<and> getYear ds d \<le> getYear ds hi))"

text \<open>
  Modelled from the spec: the default date service (\<^verbatim>\<open>./service/nativeDate.service\<close>)
  is not among the sources. \<open>civilDateService\<close> is a date service with the
  capabilities the spec lists, over civil dates: a year, a 0-based month and a day
  of the month, in the Gregorian calendar and ordered as such. As a JavaScript
  date does, \<open>createDate\<close> carries months beyond December into the following
  years and days beyond the end of the month into the next month (one month at
  most, which covers every day of the month); adding months or years keeps the
  day of the month unless the target month is shorter.
\<close>

type_synonym civil = "int \<times> int \<times> int"

text \<open>Modelled from the spec: the leap years of the civil date service.\<close>

definition isLeapYear :: "int \<Rightarrow> bool" where
  "isLeapYear y = (y mod 4 = 0 \<and> (y mod 100 \<noteq> 0 \<or> y mod 400 = 0))"

text \<open>Modelled from the spec: the length of a 0-based month, for the civil date service.\<close>

definition daysInMonth :: "int \<Rightarrow> int \<Rightarrow> int" where
  "daysInMonth y m =
     (if m = 1 then (if isLeapYear y then 29 else 28)
      else if m = 3 \<or> m = 5 \<or> m = 8 \<or> m = 10 then 30
      else 31)"

text \<open>Modelled from the spec: the triples that are dates of the calendar.\<close>

fun validCivil :: "civil \<Rightarrow> bool" where
  "validCivil (y, m, d) = (0 \<le> m \<and> m \<le> 11 \<and> 1 \<le> d \<and> d \<le> daysInMonth y m)"

text \<open>Modelled from the spec: the order of civil dates, by year, then month, then day.\<close>

fun civil_le :: "civil \<Rightarrow> civil \<Rightarrow> bool" where
  "civil_le (ya, ma, da) (yb, mb, db) =
     (ya < yb \<or> (ya = yb \<and> (ma < mb \<or> (ma = mb \<and> da \<le> db))))"

text \<open>Modelled from the spec: \<^verbatim>\<open>createDate\<close> of the civil date service.\<close>

definition civil_createDate :: "int \<Rightarrow> int \<Rightarrow> int \<Rightarrow> civil" where
  "civil_createDate y m d =
     (let y' = y + m div 12;
          m' = m mod 12;
          n = daysInMonth y' m'
      in if d \<le> n then (y', m', d)
         else if m' = 11 then (y' + 1, 0, d - n)
         else (y', m' + 1, d - n))"

text \<open>Modelled from the spec: \<^verbatim>\<open>addMonth\<close> of the civil date service.\<close>

fun civil_addMonth :: "civil \<Rightarrow> int \<Rightarrow> civil" where
  "civil_addMonth (y, m, d) k =
     (let y' = y + (m + k) div 12;
          m' = (m + k) mod 12
      in (y', m', min d (daysInMonth y' m')))"

text \<open>Modelled from the spec: \<^verbatim>\<open>addYear\<close> of the civil date service.\<close>

fun civil_addYear :: "civil \<Rightarrow> int \<Rightarrow> civil" where
  "civil_addYear (y, m, d) k = (y + k, m, min d (daysInMonth (y + k) m))"

text \<open>
  Modelled from the spec: the civil date service whose \<^verbatim>\<open>today()\<close> is \<open>now\<close>.
  A date lies between two others when it is neither before the first nor after
  the second.
\<close>

definition civilDateService :: "civil \<Rightarrow> civil DateService" where
  "civilDateService now =
     \<lparr>today = now,
      getYear = (\<lambda>(y, m, d). y),
      getMonth = (\<lambda>(y, m, d). m),
      getDate = (\<lambda>(y, m, d). d),
      createDate = civil_createDate,
      addMonth = civil_addMonth,
      addYear = civil_addYear,
      getYearStart = (\<lambda>(y, m, d). (y, 0, 1)),
      getYearEnd = (\<lambda>(y, m, d). (y, 11, 31)),
      getMonthStart = (\<lambda>(y, m, d). (y, m, 1)),
      isBetweenIncludingSafe = (\<lambda>d lo hi. civil_le lo d \<and> civil_le d hi)\<rparr>"

text \<open>
  Three calendars opened on 3 November 2026: one with no properties set, one whose
  bounds are the year 2030, whose filter throws and whose host counts the
  selections, and one whose bounds are the years 2020 to 2049.
\<close>

definition defaultCalendar :: "(civil, nat) ComponentProps" where
  "defaultCalendar =
     \<lparr>min_prop = None, max_prop = None, date_prop = None,
      dateService = civilDateService (2026, 10, 3),
      startView = DATE, filter_prop = None, onSelect = None\<rparr>"

definition calendar2030 :: "(civil, nat) ComponentProps" where
  "calendar2030 =
     \<lparr>min_prop = Some (2030, 0, 1), max_prop = Some (2030, 11, 31), date_prop = None,
      dateService = civilDateService (2026, 10, 3),
      startView = DATE, filter_prop = Some (\<lambda>d. Inl CallbackThrew),
      onSelect = Some (\<lambda>d h. Suc h)\<rparr>"

definition calendarDecades :: "(civil, nat) ComponentProps" where
  "calendarDecades =
     \<lparr>min_prop = Some (2020, 0, 1), max_prop = Some (2049, 11, 31), date_prop = None,
      dateService = civilDateService (2026, 10, 3),
      startView = YEAR, filter_prop = None, onSelect = None\<rparr>"

section \<open>Batching into rows\<close>

lemma concat_batch: "0 < w \<Longrightarrow> concat (batch xs w) = xs"
proof (induction xs w rule: batch.induct)
  case (1 target batchSize)
  then show ?case by (subst batch.simps) simp
qed

lemma batch_Nil_iff: "0 < w \<Longrightarrow> batch xs w = [] \<longleftrightarrow> xs = []"
  by (subst batch.simps) simp

lemma batch_row_length:
  "0 < w \<Longrightarrow> r \<in> set (batch xs w) \<Longrightarrow> 0 < length r \<and> length r \<le> w"
proof (induction xs w rule: batch.induct)
  case (1 target batchSize)
  from "1.prems"(2) have ne: "target \<noteq> []"
    by (subst (asm) batch.simps) (simp split: if_splits)
  with "1.prems" have "r = take batchSize target \<or> r \<in> set (batch (drop batchSize target) batchSize)"
    by (subst (asm) batch.simps) simp
  then show ?case
  proof
    assume "r = take batchSize target"
    then show ?thesis using ne "1.prems"(1) by simp
  next
    assume "r \<in> set (batch (drop batchSize target) batchSize)"
    then show ?thesis using "1.IH" ne "1.prems"(1) by simp
  qed
qed

lemma batch_full_rows:
  "0 < w \<Longrightarrow> Suc i < length (batch xs w) \<Longrightarrow> length (batch xs w ! i) = w"
proof (induction xs w arbitrary: i rule: batch.induct)
  case (1 target batchSize)
  from "1.prems"(2) have ne: "target \<noteq> []"
    by (subst (asm) batch.simps) (simp split: if_splits)
  have unfold: "batch target batchSize = take batchSize target # batch (drop batchSize target) batchSize"
    using ne "1.prems"(1) by (subst batch.simps) simp
  have rest: "i < length (batch (drop batchSize target) batchSize)"
    using "1.prems"(2) unfold by simp
  show ?case
  proof (cases i)
    case 0
    from rest have "batch (drop batchSize target) batchSize \<noteq> []" by auto
    then have "drop batchSize target \<noteq> []"
      using batch_Nil_iff [OF "1.prems"(1)] by blast
    then have "batchSize < length target" by simp
    then show ?thesis using 0 unfold by simp
  next
    case (Suc j)
    then have "Suc j < length (batch (drop batchSize target) batchSize)" using rest by simp
    then have "length (batch (drop batchSize target) batchSize ! j) = batchSize"
      using "1.IH" ne "1.prems"(1) by simp
    then show ?thesis using Suc unfold by simp
  qed
qed

lemma batch_step_arith:
  fixes n w :: nat
  assumes "0 < n" "0 < w"
  shows "Suc ((n - w + w - 1) div w) = (n + w - 1) div w"
proof -
  obtain k where n: "n = Suc k" using assms(1) by (cases n) auto
  have r: "(k + w) div w = Suc (k div w)" using assms(2) div_add_self2 [of w k] by simp
  show ?thesis
  proof (cases "n \<le> w")
    case True
    then have "k div w = 0" using n by simp
    moreover have "(n - w + w - 1) div w = 0" using True assms(2) by simp
    ultimately show ?thesis using r n by simp
  next
    case False
    then have "n - w + w - 1 = k" using n by simp
    then show ?thesis using r n by simp
  qed
qed

lemma length_batch: "0 < w \<Longrightarrow> length (batch xs w) = (length xs + w - 1) div w"
proof (induction xs w rule: batch.induct)
  case (1 target batchSize)
  show ?case
  proof (cases "target = []")
    case True
    then show ?thesis using 1 by (subst batch.simps) simp
  next
    case False
    then have IH: "length (batch (drop batchSize target) batchSize)
        = (length (drop batchSize target) + batchSize - 1) div batchSize"
      using 1 by simp
    have "length (batch target batchSize) = Suc (length (batch (drop batchSize target) batchSize))"
      using False 1(2) by (subst batch.simps) simp
    also have "\<dots> = Suc ((length target - batchSize + batchSize - 1) div batchSize)"
      using IH by simp
    also have "\<dots> = (length target + batchSize - 1) div batchSize"
      using False 1(2) by (intro batch_step_arith) simp_all
    finally show ?thesis .
  qed
qed

lemma ceiling_as_div:
  fixes n w :: nat
  assumes "0 < w"
  shows "\<lceil>real n / real w\<rceil> = int ((n + w - 1) div w)"
proof (rule ceiling_unique)
  let ?k = "(n + w - 1) div w"
  have lower: "?k * w \<le> n + w - 1" by simp
  have "n + w - 1 < ?k * w + w"
    using assms dividend_less_div_times [of w "n + w - 1"] by (simp add: mult.commute)
  then have up: "n \<le> ?k * w" using assms by linarith
  from lower have lo: "?k * w < n + w" using assms by linarith
  have "real n \<le> real (?k * w)" using up by (simp only: of_nat_le_iff)
  then show "real n / real w \<le> of_int (int ?k)"
    using assms by (simp add: pos_divide_le_eq)
  have "real (?k * w) < real (n + w)" using lo by (simp only: of_nat_less_iff)
  then have "(real ?k - 1) * real w < real n" by (simp add: algebra_simps)
  then show "of_int (int ?k) - 1 < real n / real w"
    using assms by (simp add: pos_less_divide_eq)
qed

text \<open>
  C4. For a row width \<open>w > 0\<close> and a sequence of length \<open>n\<close>, \<open>batch\<close> yields
  \<open>ceil (n / w)\<close> rows; every row but the last has length \<open>w\<close>, every row (the
  last one too) has between 1 and \<open>w\<close> items, and the rows concatenated in order
  are the sequence.
\<close>

theorem batch_grid:
  assumes "0 < w"
  shows "int (length (batch xs w)) = \<lceil>real (length xs) / real w\<rceil>
    \<and> (\<forall>i. Suc i < length (batch xs w) \<longrightarrow> length (batch xs w ! i) = w)
    \<and> (\<forall>r \<in> set (batch xs w). 0 < length r \<and> length r \<le> w)
    \<and> concat (batch xs w) = xs"
proof (intro conjI allI impI ballI)
  show "int (length (batch xs w)) = \<lceil>real (length xs) / real w\<rceil>"
    using assms by (simp only: length_batch ceiling_as_div)
next
  fix i assume "Suc i < length (batch xs w)"
  with assms show "length (batch xs w ! i) = w" by (rule batch_full_rows)
next
  fix r assume "r \<in> set (batch xs w)"
  with assms show "0 < length r" and "length r \<le> w"
    using batch_row_length [of w r xs] by simp_all
next
  show "concat (batch xs w) = xs" using assms by (rule concat_batch)
qed

theorem batch_grid_witness:
  "(0::nat) < 2
   \<and> batch [10, 20, 30, 40, 50 :: int] 2 = [[10, 20], [30, 40], [50]]
   \<and> int (length (batch [10, 20, 30, 40, 50 :: int] 2)) = \<lceil>real 5 / real 2\<rceil>
   \<and> concat (batch [10, 20, 30, 40, 50 :: int] 2) = [10, 20, 30, 40, 50]"
  using batch_grid [of 2 "[10, 20, 30, 40, 50 :: int]"]
  by (simp add: batch.simps)

section \<open>Picker grids and pager indices\<close>

lemma range_list_12:
  "range_list 12 f = [f 0, f 1, f 2, f 3, f 4, f 5, f 6, f 7, f 8, f 9, f 10, f 11]"
  by (simp add: range_list_def upt_rec)

lemma batch_12_4:
  "batch [a0, a1, a2, a3, a4, a5, a6, a7, a8, a9, a10, a11] 4 =
     [[a0, a1, a2, a3], [a4, a5, a6, a7], [a8, a9, a10, a11]]"
  by (simp add: batch.simps)

text \<open>
  C5. For every date, the month picker grid is the twelve months that follow the
  year start of that date (0 to 11 months after it), in three rows of four, and
  the year picker grid is the twelve years that follow the year start of that
  date (0 to 11 years after it), in three rows of four.
\<close>

theorem picker_grids:
  "createMonthPickerData p date =
     (let ds = dateService p; y = getYearStart ds date
      in [[addMonth ds y 0, addMonth ds y 1, addMonth ds y 2, addMonth ds y 3],
          [addMonth ds y 4, addMonth ds y 5, addMonth ds y 6, addMonth ds y 7],
          [addMonth ds y 8, addMonth ds y 9, addMonth ds y 10, addMonth ds y 11]])
   \<and> createYearPickerData p date =
     (let ds = dateService p; y = getYearStart ds date
      in [[addYear ds y 0, addYear ds y 1, addYear ds y 2, addYear ds y 3],
          [addYear ds y 4, addYear ds y 5, addYear ds y 6, addYear ds y 7],
          [addYear ds y 8, addYear ds y 9, addYear ds y 10, addYear ds y 11]])"
  by (simp add: createMonthPickerData_def createYearPickerData_def Let_def
      MONTHS_IN_YEAR_def MONTHS_IN_COLUMN_def YEARS_IN_VIEW_def YEARS_IN_COLUMN_def
      range_list_12 batch_12_4)

text \<open>
  C6. The active page of the day pager is the 0-based month of the visible date,
  and the active page of the year pager is the number of years from \<^verbatim>\<open>min\<close> to
  the visible date, divided by 12 and rounded down. For both pagers a page index
  is in the viewport exactly when it differs from the active index by at most 1.
\<close>

theorem pager_indices:
  "visibleDayPickerIndex p s = getMonth (dateService p) (visibleDate s)
   \<and> (isDayPickerInViewPort p s i \<longleftrightarrow> \<bar>i - visibleDayPickerIndex p s\<bar> \<le> 1)
   \<and> visibleYearPickerIndex p s =
       (getYear (dateService p) (visibleDate s) - getYear (dateService p) (get_min p)) div 12
   \<and> (isYearPickerInViewPort p s i \<longleftrightarrow> \<bar>i - visibleYearPickerIndex p s\<bar> \<le> 1)"
  by (auto simp add: visibleDayPickerIndex_def isDayPickerInViewPort_def
      visibleYearPickerIndex_def isYearPickerInViewPort_def Let_def YEARS_IN_VIEW_def)

section \<open>View-mode transitions\<close>

text \<open>
  C2. The drill-down transition maps Year to Month, Month to Day and Day to Day.
  From any state put in Year view, a year selection followed by a month selection
  (the two handlers that apply \<^verbatim>\<open>pickNext\<close>) ends in Day view, whatever the dates
  selected; from Day view both handlers stay in Day view.
\<close>

theorem drill_down_reaches_day:
  "pickNext YEAR = MONTH \<and> pickNext MONTH = DATE \<and> pickNext DATE = DATE
   \<and> viewMode (onYearSelect p d1 (s\<lparr>viewMode := YEAR\<rparr>)) = MONTH
   \<and> viewMode (onMonthSelect p d2 (onYearSelect p d1 (s\<lparr>viewMode := YEAR\<rparr>))) = DATE
   \<and> viewMode (onMonthSelect p d3 (s\<lparr>viewMode := DATE\<rparr>)) = DATE
   \<and> viewMode (onYearSelect p d3 (s\<lparr>viewMode := DATE\<rparr>)) = DATE
   \<and> pickNext (pickNext v) = DATE
   \<and> pickNext (pickNext (pickNext v)) = DATE"
  by (cases v) (simp_all add: onYearSelect_def onMonthSelect_def Let_def)

text \<open>
  C3. The cycle transition maps Day to Month, Month to Year and Year back to Day;
  pressing the header title applies it to the view mode and leaves the visible date
  as it was.
\<close>

theorem navigation_cycles_and_keeps_date:
  "navigationNext DATE = MONTH \<and> navigationNext MONTH = YEAR \<and> navigationNext YEAR = DATE
   \<and> viewMode (onPickerNavigationPress s) = navigationNext (viewMode s)
   \<and> visibleDate (onPickerNavigationPress s) = visibleDate s"
  by (simp add: onPickerNavigationPress_def)

section \<open>Day selection\<close>

text \<open>
  C8. Selecting a day hands exactly the selected date to the host's \<^verbatim>\<open>onSelect\<close>
  callback when one is provided (the host's state becomes what the callback makes
  of that date), does nothing without a callback, and in both cases leaves the
  component's view mode and visible date unchanged.
\<close>

theorem onDateSelect_emits_and_keeps_state:
  "onDateSelect (p\<lparr>onSelect := Some f\<rparr>) d (s, h) = (s, f d h)
   \<and> onDateSelect (p\<lparr>onSelect := None\<rparr>) d (s, h) = (s, h)
   \<and> viewMode (fst (onDateSelect p d (s, h))) = viewMode s
   \<and> visibleDate (fst (onDateSelect p d (s, h))) = visibleDate s"
  by (simp add: onDateSelect_def split: option.split)

section \<open>Disabled cells\<close>

lemma calendar2030_today_outside: "\<not> isDateFitsBounds calendar2030 (2026, 10, 3)"
  by (simp add: isDateFitsBounds_def calendar2030_def civilDateService_def get_min_def get_max_def)

text \<open>
  C7. For a date that does not fit the bounds, the three disabled predicates
  answer true, as a value: the filter is not consulted, so nothing it throws
  can escape. Pressing the day, month or year cell of such a date changes
  neither the component's state nor the host's.
\<close>

theorem out_of_bounds_disabled:
  assumes "\<not> isDateFitsBounds p d"
  shows "isDayDisabled p d = Inr True \<and> isMonthDisabled p d = Inr True
    \<and> isYearDisabled p d = Inr True
    \<and> dayCellPress p d (s, h) = (s, h)
    \<and> monthCellPress p d s = s
    \<and> yearCellPress p d s = s"
  using assms
  by (simp add: isDayDisabled_def isMonthDisabled_def isYearDisabled_def
      dayCellPress_def monthCellPress_def yearCellPress_def pickerCellPress_def)

theorem out_of_bounds_disabled_witness:
  "\<not> isDateFitsBounds calendar2030 (2026, 10, 3)
   \<and> filter_prop calendar2030 = Some (\<lambda>d. Inl CallbackThrew)
   \<and> isDayDisabled calendar2030 (2026, 10, 3) = Inr True
   \<and> dayCellPress calendar2030 (2026, 10, 3) (initialState calendar2030, 0)
       = (initialState calendar2030, 0)
   \<and> yearCellPress calendar2030 (2026, 10, 3) (initialState calendar2030)
       = initialState calendar2030"
  using out_of_bounds_disabled [OF calendar2030_today_outside, of "initialState calendar2030" 0]
    calendar2030_today_outside
  by (simp add: calendar2030_def)

lemma default_fits: "isDateFitsBounds (defaultCalendar\<lparr>filter_prop := x\<rparr>) (2026, 10, 13)"
  by (simp add: isDateFitsBounds_def defaultCalendar_def civilDateService_def get_min_def get_max_def)

text \<open>
  C10. A date that fits the bounds is disabled exactly when a filter is provided
  and answers false for it, in the day, month and year pickers alike; without a
  filter every such date is enabled.
\<close>

theorem filter_polarity:
  assumes "isDateFitsBounds p d"
  shows "(isDayDisabled p d = Inr True \<longleftrightarrow> (\<exists>f. filter_prop p = Some f \<and> f d = Inr False))
    \<and> (isMonthDisabled p d = Inr True \<longleftrightarrow> (\<exists>f. filter_prop p = Some f \<and> f d = Inr False))
    \<and> (isYearDisabled p d = Inr True \<longleftrightarrow> (\<exists>f. filter_prop p = Some f \<and> f d = Inr False))
    \<and> (filter_prop p = None \<longrightarrow> isDayDisabled p d = Inr False
          \<and> isMonthDisabled p d = Inr False \<and> isYearDisabled p d = Inr False)"
  using assms
  by (auto simp add: isDayDisabled_def isMonthDisabled_def isYearDisabled_def
      isDateFitsFilter_def split: option.splits sum.splits)

theorem filter_polarity_witness:
  "isDateFitsBounds (defaultCalendar\<lparr>filter_prop := Some (\<lambda>(y, m, d). Inr (d \<noteq> 13))\<rparr>) (2026, 10, 13)
   \<and> isDayDisabled (defaultCalendar\<lparr>filter_prop := Some (\<lambda>(y, m, d). Inr (d \<noteq> 13))\<rparr>) (2026, 10, 13) = Inr True
   \<and> isDayDisabled (defaultCalendar\<lparr>filter_prop := None\<rparr>) (2026, 10, 13) = Inr False"
  using filter_polarity [OF default_fits, of "Some (\<lambda>(y, m, d). Inr (d \<noteq> 13))"]
    filter_polarity [OF default_fits, of None] default_fits
  by simp

section \<open>Bounds and the visible date\<close>

lemma daysInMonth_bounds: "28 \<le> daysInMonth y m \<and> daysInMonth y m \<le> 31"
  by (simp add: daysInMonth_def)

lemma daysInMonth_december: "daysInMonth y 11 = 31"
  by (simp add: daysInMonth_def)

lemma daysInMonth_january: "daysInMonth y 0 = 31"
  by (simp add: daysInMonth_def)

lemma civil_createDate_valid:
  assumes "0 \<le> m" "m \<le> 11" "1 \<le> d" "d \<le> 31"
  shows "validCivil (civil_createDate y m d) \<and> fst (civil_createDate y m d) = y"
proof -
  have m: "m div 12 = 0" "m mod 12 = m" using assms by simp_all
  show ?thesis
  proof (cases "d \<le> daysInMonth y m")
    case True
    then show ?thesis using assms m by (simp add: civil_createDate_def Let_def)
  next
    case False
    then have "m \<noteq> 11" using assms daysInMonth_december [of y] by auto
    moreover have "d - daysInMonth y m \<le> 3" using assms daysInMonth_bounds [of y m] by simp
    moreover have "28 \<le> daysInMonth y (m + 1)" using daysInMonth_bounds [of y "m + 1"] by simp
    ultimately show ?thesis using False assms m by (simp add: civil_createDate_def Let_def)
  qed
qed

lemma civil_lawful:
  assumes "validCivil now"
  shows "lawfulDateService (civilDateService now) validCivil"
  unfolding lawfulDateService_def
proof (intro conjI allI impI)
  show "validCivil (today (civilDateService now))"
    using assms by (simp add: civilDateService_def)
next
  fix d :: civil assume "validCivil d"
  then show "validCivil (getMonthStart (civilDateService now) d)"
    using daysInMonth_bounds [of "fst d" "fst (snd d)"]
    by (cases d) (simp add: civilDateService_def)
next
  fix d :: civil
  show "getYear (civilDateService now) (getMonthStart (civilDateService now) d) = getYear (civilDateService now) d"
    by (cases d) (simp add: civilDateService_def)
next
  fix d :: civil
  show "validCivil (getYearStart (civilDateService now) d)"
    by (cases d) (simp add: civilDateService_def daysInMonth_january)
next
  fix d :: civil
  show "getYear (civilDateService now) (getYearStart (civilDateService now) d) = getYear (civilDateService now) d"
    by (cases d) (simp add: civilDateService_def)
next
  fix d :: civil and k :: int assume "0 \<le> k" "k < 12"
  then have k: "k div 12 = 0" "k mod 12 = k" by simp_all
  show "validCivil (addMonth (civilDateService now) (getYearStart (civilDateService now) d) k)"
    using k \<open>0 \<le> k\<close> \<open>k < 12\<close> daysInMonth_bounds [of "fst d" k]
    by (cases d) (simp add: civilDateService_def Let_def)
  show "getYear (civilDateService now) (addMonth (civilDateService now) (getYearStart (civilDateService now) d) k) = getYear (civilDateService now) d"
    using k by (cases d) (simp add: civilDateService_def Let_def)
next
  fix d :: civil
  show "getYear (civilDateService now) (getYearEnd (civilDateService now) d) = getYear (civilDateService now) d"
    by (cases d) (simp add: civilDateService_def)
next
  fix d :: civil and n :: int assume "validCivil d"
  then show "validCivil (addYear (civilDateService now) d n)"
    using daysInMonth_bounds [of "fst d + n" "fst (snd d)"]
    by (cases d) (simp add: civilDateService_def)
next
  fix d :: civil and n :: int
  show "getYear (civilDateService now) (addYear (civilDateService now) d n) = getYear (civilDateService now) d + n"
    by (cases d) (simp add: civilDateService_def)
next
  fix y :: int and a b :: civil assume ab: "validCivil a" "validCivil b"
  obtain ya ma da where a: "a = (ya, ma, da)" by (cases a)
  obtain yb mb db where b: "b = (yb, mb, db)" by (cases b)
  have "0 \<le> ma" "ma \<le> 11" "1 \<le> db" "db \<le> 31"
    using ab a b daysInMonth_bounds [of yb mb] by simp_all
  then have "validCivil (civil_createDate y ma db) \<and> fst (civil_createDate y ma db) = y"
    by (rule civil_createDate_valid)
  then show "validCivil (createDate (civilDateService now) y (getMonth (civilDateService now) a) (getDate (civilDateService now) b))"
    and "getYear (civilDateService now) (createDate (civilDateService now) y (getMonth (civilDateService now) a) (getDate (civilDateService now) b)) = y"
    using a b by (simp_all add: civilDateService_def split_beta)
next
  fix d lo hi :: civil assume "validCivil d"
  then show "isBetweenIncludingSafe (civilDateService now) d (getYearStart (civilDateService now) lo) (getYearEnd (civilDateService now) hi)
     = (getYear (civilDateService now) lo \<le> getYear (civilDateService now) d \<and> getYear (civilDateService now) d \<le> getYear (civilDateService now) hi)"
    using daysInMonth_bounds [of "fst d" "fst (snd d)"]
    by (cases d; cases lo; cases hi) (auto simp add: civilDateService_def)
qed

lemma set_range_list: "set (range_list n f) = (\<lambda>i. f (int i)) ` {0..<n}"
  by (simp add: range_list_def)

lemma month_cell_cases:
  assumes "d \<in> set (concat (createMonthPickerData p x))"
  obtains k where "0 \<le> k" "k < 12" "d = addMonth (dateService p) (getYearStart (dateService p) x) k"
proof -
  from assms have "d \<in> set (range_list MONTHS_IN_YEAR (\<lambda>index. addMonth (dateService p) (getYearStart (dateService p) x) index))"
    by (simp add: createMonthPickerData_def Let_def MONTHS_IN_COLUMN_def concat_batch)
  then obtain i where "i < 12" "d = addMonth (dateService p) (getYearStart (dateService p) x) (int i)"
    by (auto simp add: set_range_list MONTHS_IN_YEAR_def)
  then show ?thesis using that [of "int i"] by simp
qed

lemma year_cell_cases:
  assumes "d \<in> set (concat (createYearPickerData p x))"
  obtains k where "0 \<le> k" "k < 12" "d = addYear (dateService p) (getYearStart (dateService p) x) k"
proof -
  from assms have "d \<in> set (range_list YEARS_IN_VIEW (\<lambda>index. addYear (dateService p) (getYearStart (dateService p) x) index))"
    by (simp add: createYearPickerData_def Let_def YEARS_IN_COLUMN_def concat_batch)
  then obtain i where "i < 12" "d = addYear (dateService p) (getYearStart (dateService p) x) (int i)"
    by (auto simp add: set_range_list YEARS_IN_VIEW_def)
  then show ?thesis using that [of "int i"] by simp
qed

lemma lawful_today: "lawfulDateService ds V \<Longrightarrow> V (today ds)"
  by (simp add: lawfulDateService_def)

lemma lawful_monthStart:
  "lawfulDateService ds V \<Longrightarrow> V d
   \<Longrightarrow> V (getMonthStart ds d) \<and> getYear ds (getMonthStart ds d) = getYear ds d"
  by (simp add: lawfulDateService_def)

lemma lawful_yearStart:
  "lawfulDateService ds V \<Longrightarrow> V d
   \<Longrightarrow> V (getYearStart ds d) \<and> getYear ds (getYearStart ds d) = getYear ds d"
  by (simp add: lawfulDateService_def)

lemma lawful_addMonth:
  "lawfulDateService ds V \<Longrightarrow> V d \<Longrightarrow> 0 \<le> k \<Longrightarrow> k < 12
   \<Longrightarrow> V (addMonth ds (getYearStart ds d) k)
     \<and> getYear ds (addMonth ds (getYearStart ds d) k) = getYear ds d"
  by (simp add: lawfulDateService_def)

lemma lawful_yearEnd:
  "lawfulDateService ds V \<Longrightarrow> V d \<Longrightarrow> getYear ds (getYearEnd ds d) = getYear ds d"
  by (simp add: lawfulDateService_def)

lemma lawful_addYear:
  "lawfulDateService ds V \<Longrightarrow> V d \<Longrightarrow> 0 \<le> n
   \<Longrightarrow> V (addYear ds d n) \<and> getYear ds (addYear ds d n) = getYear ds d + n"
  by (simp add: lawfulDateService_def)

lemma length_createDayPickerPagerData: "length (createDayPickerPagerData p x) = 12"
  by (simp add: createDayPickerPagerData_def Let_def range_list_def MONTHS_IN_YEAR_def)

lemma isYearPickerPage_iff:
  "isYearPickerPage p index \<longleftrightarrow>
     0 \<le> index \<and> (index < 1
       \<or> index * 12 < getYear (dateService p) (get_max p) - getYear (dateService p) (get_min p))"
proof -
  let ?n = "getYear (dateService p) (get_max p) - getYear (dateService p) (get_min p)"
  have "real_of_int index < real_of_int ?n / 12 \<longleftrightarrow> real_of_int (index * 12) < real_of_int ?n"
    by (simp add: pos_less_divide_eq)
  also have "\<dots> \<longleftrightarrow> index * 12 < ?n" by (simp only: of_int_less_iff)
  finally have "real_of_int index < real_of_int ?n / 12 \<longleftrightarrow> index * 12 < ?n" .
  moreover have "real_of_int index < 1 \<longleftrightarrow> index < 1" by simp
  ultimately show ?thesis
    by (auto simp add: isYearPickerPage_def numberOfYearPages_def Let_def YEARS_IN_VIEW_def
        less_max_iff_disj)
qed

lemma lawful_createDate:
  "lawfulDateService ds V \<Longrightarrow> V a \<Longrightarrow> V b
   \<Longrightarrow> V (createDate ds y (getMonth ds a) (getDate ds b))
     \<and> getYear ds (createDate ds y (getMonth ds a) (getDate ds b)) = y"
  by (simp add: lawfulDateService_def)

lemma lawful_between:
  "lawfulDateService ds V \<Longrightarrow> V d \<Longrightarrow> V lo \<Longrightarrow> V hi
   \<Longrightarrow> isBetweenIncludingSafe ds d (getYearStart ds lo) (getYearEnd ds hi)
       = (getYear ds lo \<le> getYear ds d \<and> getYear ds d \<le> getYear ds hi)"
  by (simp add: lawfulDateService_def)

lemma pickerCellPress_cases:
  "pickerCellPress b f w = w \<or> (b = Inr False \<and> pickerCellPress b f w = f w)"
  by (auto simp add: pickerCellPress_def split: sum.splits bool.splits)

lemma disabled_False_fits:
  "isMonthDisabled p d = Inr False \<Longrightarrow> isDateFitsBounds p d"
  "isYearDisabled p d = Inr False \<Longrightarrow> isDateFitsBounds p d"
  by (auto simp add: isMonthDisabled_def isYearDisabled_def split: if_splits)

lemma reachable_years:
  assumes law: "lawfulDateService (dateService p) V"
    and lo: "V lo" and hi: "V hi"
    and mn: "get_min p = getYearStart (dateService p) lo"
    and mx: "get_max p = getYearEnd (dateService p) hi"
    and t1: "getYear (dateService p) lo \<le> getYear (dateService p) (today (dateService p))"
    and t2: "getYear (dateService p) (today (dateService p)) \<le> getYear (dateService p) hi"
    and r: "reachable p s"
  shows "V (visibleDate s)
    \<and> getYear (dateService p) lo \<le> getYear (dateService p) (visibleDate s)
    \<and> getYear (dateService p) (visibleDate s) \<le> getYear (dateService p) hi"
  using r
proof (induction rule: reachable.induct)
  case r_init
  show ?case
    using lawful_monthStart [OF law lawful_today [OF law]] t1 t2
    by (simp add: initialState_def)
next
  case (r_title s)
  then show ?case by (simp add: onPickerNavigationPress_def)
next
  case (r_today s)
  show ?case using lawful_today [OF law] t1 t2 by (simp add: onTodayPress_def)
next
  case (r_dayPage s index)
  then have "V (visibleDate s)" and "0 \<le> index" and "index < 12"
    by (simp_all add: length_createDayPickerPagerData)
  from lawful_addMonth [OF law this] r_dayPage.IH
  show ?case by (simp add: onDatePickerPagerSelect_def Let_def)
next
  case (r_yearPage s index s')
  let ?ds = "dateService p"
  from r_yearPage.hyps(3) obtain m where m: "min_prop p = Some m"
    and s': "s' = s\<lparr>visibleDate := addYear ?ds (getYearStart ?ds m) (index * 12)\<rparr>"
    by (auto simp add: onYearPickerPagerSelect_def Let_def YEARS_IN_VIEW_def split: option.splits)
  from m mn have "m = getYearStart ?ds lo" by (simp add: get_min_def)
  moreover have Vm: "V (getYearStart ?ds lo) \<and> getYear ?ds (getYearStart ?ds lo) = getYear ?ds lo"
    using lawful_yearStart [OF law lo] .
  ultimately have start: "V (getYearStart ?ds m) \<and> getYear ?ds (getYearStart ?ds m) = getYear ?ds lo"
    using lawful_yearStart [OF law, of "getYearStart ?ds lo"] by simp
  from r_yearPage.hyps(2) have i: "0 \<le> index"
    and pg: "index < 1 \<or> index * 12 < getYear ?ds (get_max p) - getYear ?ds (get_min p)"
    by (simp_all add: isYearPickerPage_iff)
  have "0 \<le> index * 12" using i by simp
  with start have new: "V (addYear ?ds (getYearStart ?ds m) (index * 12))
    \<and> getYear ?ds (addYear ?ds (getYearStart ?ds m) (index * 12)) = getYear ?ds lo + index * 12"
    using lawful_addYear [OF law, of "getYearStart ?ds m" "index * 12"] by simp
  have "getYear ?ds (get_max p) - getYear ?ds (get_min p) = getYear ?ds hi - getYear ?ds lo"
    using mn mx Vm lawful_yearEnd [OF law hi] by simp
  with pg i t1 t2 have "getYear ?ds lo + index * 12 \<le> getYear ?ds hi" by auto
  with new i show ?case by (simp add: s')
next
  case (r_monthCell s d)
  from r_monthCell.hyps(2) obtain k where k: "0 \<le> k" "k < 12"
    and d: "d = addMonth (dateService p) (getYearStart (dateService p) (visibleDate s)) k"
    by (rule month_cell_cases)
  have Vs: "V (visibleDate s)" using r_monthCell.IH by simp
  have "V d" using lawful_addMonth [OF law Vs k] d by simp
  from lawful_createDate [OF law this Vs] r_monthCell.IH
  have "V (visibleDate (onMonthSelect p d s))
    \<and> getYear (dateService p) lo \<le> getYear (dateService p) (visibleDate (onMonthSelect p d s))
    \<and> getYear (dateService p) (visibleDate (onMonthSelect p d s)) \<le> getYear (dateService p) hi"
    by (simp add: onMonthSelect_def Let_def)
  then show ?case
    using r_monthCell.IH pickerCellPress_cases [of "isMonthDisabled p d" "onMonthSelect p d" s]
    by (auto simp add: monthCellPress_def)
next
  case (r_yearCell s i d)
  let ?ds = "dateService p"
  from r_yearCell.hyps(3) obtain k where k: "0 \<le> k" "k < 12"
    and d: "d = addYear ?ds (getYearStart ?ds (yearPickerPageDate p i)) k"
    by (rule year_cell_cases)
  have Vs: "V (visibleDate s)" using r_yearCell.IH by simp
  have "V (get_min p)" using lawful_yearStart [OF law lo] mn by simp
  moreover have "0 \<le> i * int YEARS_IN_VIEW"
    using r_yearCell.hyps(2) by (simp add: isYearPickerPage_def)
  ultimately have "V (yearPickerPageDate p i)"
    using lawful_addYear [OF law] by (simp add: yearPickerPageDate_def)
  then have "V (getYearStart ?ds (yearPickerPageDate p i))"
    using lawful_yearStart [OF law] by simp
  then have Vd: "V d" using lawful_addYear [OF law _ k(1)] d by simp
  show ?case
  proof (cases "isYearDisabled p d = Inr False")
    case True
    then have "isDateFitsBounds p d" by (rule disabled_False_fits)
    then have "getYear ?ds lo \<le> getYear ?ds d \<and> getYear ?ds d \<le> getYear ?ds hi"
      using lawful_between [OF law Vd lo hi] mn mx by (simp add: isDateFitsBounds_def)
    with lawful_createDate [OF law Vs Vs, of "getYear ?ds d"] True
    show ?thesis
      by (simp add: yearCellPress_def pickerCellPress_def onYearSelect_def Let_def)
  next
    case False
    then have "yearCellPress p d s = s"
      using pickerCellPress_cases [of "isYearDisabled p d" "onYearSelect p d" s]
      by (auto simp add: yearCellPress_def)
    then show ?thesis using r_yearCell.IH by simp
  qed
qed

text \<open>
  C9. An omitted \<^verbatim>\<open>min\<close>, \<^verbatim>\<open>max\<close> or \<^verbatim>\<open>date\<close> property stands for the year
  start of today, the year end of today and today; a provided one is used as it
  is. With neither bound provided and a lawful date service, a date fits the
  bounds exactly when it is in today's year.
\<close>

theorem default_bounds:
  assumes "lawfulDateService (dateService p) V" and "V d"
  shows "get_min (p\<lparr>min_prop := None\<rparr>) = getYearStart (dateService p) (today (dateService p))
    \<and> get_max (p\<lparr>max_prop := None\<rparr>) = getYearEnd (dateService p) (today (dateService p))
    \<and> get_date (p\<lparr>date_prop := None\<rparr>) = today (dateService p)
    \<and> get_min (p\<lparr>min_prop := Some m\<rparr>) = m
    \<and> get_max (p\<lparr>max_prop := Some m\<rparr>) = m
    \<and> get_date (p\<lparr>date_prop := Some m\<rparr>) = m
    \<and> (isDateFitsBounds (p\<lparr>min_prop := None, max_prop := None\<rparr>) d
        \<longleftrightarrow> getYear (dateService p) d = getYear (dateService p) (today (dateService p)))"
  using lawful_between [OF assms(1) assms(2) lawful_today [OF assms(1)] lawful_today [OF assms(1)]]
  by (auto simp add: get_min_def get_max_def get_date_def isDateFitsBounds_def)

theorem default_bounds_witness:
  "lawfulDateService (dateService calendar2030) validCivil
   \<and> validCivil (2027, 0, 1)
   \<and> get_min (calendar2030\<lparr>min_prop := None\<rparr>) = (2026, 0, 1)
   \<and> get_max (calendar2030\<lparr>max_prop := None\<rparr>) = (2026, 11, 31)
   \<and> get_date (calendar2030\<lparr>date_prop := None\<rparr>) = (2026, 10, 3)
   \<and> \<not> isDateFitsBounds (calendar2030\<lparr>min_prop := None, max_prop := None\<rparr>) (2027, 0, 1)"
proof -
  have v: "validCivil (2026, 10, 3)" and d: "validCivil (2027, 0, 1)"
    by (simp_all add: daysInMonth_def)
  have law: "lawfulDateService (dateService calendar2030) validCivil"
    using civil_lawful [OF v] by (simp add: calendar2030_def)
  show ?thesis
    using default_bounds [OF law d] law d
    by (simp add: calendar2030_def civilDateService_def)
qed

text \<open>
  The component never clamps the visible date. A calendar bounded to the year
  2030 and opened on 3 November 2026 starts at 1 November 2026, outside its
  bounds.
\<close>

theorem visible_date_unclamped_counterexample:
  "reachable calendar2030 (initialState calendar2030)
   \<and> \<not> isDateFitsBounds calendar2030 (visibleDate (initialState calendar2030))"
  using r_init [of calendar2030]
  by (simp add: initialState_def isDateFitsBounds_def calendar2030_def civilDateService_def
      get_min_def get_max_def)

text \<open>
  C1. The visible date fits the bounds in every reachable state under these
  conditions, and is not clamped to them otherwise. Let the date service be
  lawful, and let \<^verbatim>\<open>min\<close> be the start of a year and \<^verbatim>\<open>max\<close> the end of a year
  (as the defaults are), today's year lying between the two. Then in every state
  reached from the initial state by title presses, today presses, page selections
  of the day pager and of the year pager, and presses of month and year cells,
  the visible date fits the bounds. (Without a \<^verbatim>\<open>min\<close> property a page selection
  of the year pager yields no state.)
\<close>

theorem visible_date_within_whole_year_bounds:
  assumes "lawfulDateService (dateService p) V"
    and "V lo" and "V hi"
    and "get_min p = getYearStart (dateService p) lo"
    and "get_max p = getYearEnd (dateService p) hi"
    and "getYear (dateService p) lo \<le> getYear (dateService p) (today (dateService p))"
    and "getYear (dateService p) (today (dateService p)) \<le> getYear (dateService p) hi"
    and "reachable p s"
  shows "isDateFitsBounds p (visibleDate s)"
proof -
  have "V (visibleDate s)
    \<and> getYear (dateService p) lo \<le> getYear (dateService p) (visibleDate s)
    \<and> getYear (dateService p) (visibleDate s) \<le> getYear (dateService p) hi"
    using assms by (rule reachable_years)
  then show ?thesis
    using lawful_between [OF assms(1) _ assms(2) assms(3)] assms(4) assms(5)
    by (simp add: isDateFitsBounds_def)
qed

theorem visible_date_within_whole_year_bounds_witness:
  "lawfulDateService (dateService calendarDecades) validCivil
   \<and> isYearPickerPage calendarDecades 2
   \<and> onYearPickerPagerSelect calendarDecades 2 (initialState calendarDecades)
       = Some \<lparr>viewMode = YEAR, visibleDate = (2044, 0, 1)\<rparr>
   \<and> reachable calendarDecades \<lparr>viewMode = YEAR, visibleDate = (2044, 0, 1)\<rparr>
   \<and> isDateFitsBounds calendarDecades (2044, 0, 1)"
proof -
  let ?ds = "dateService calendarDecades"
  let ?s = "\<lparr>viewMode = YEAR, visibleDate = (2044, 0, 1) :: civil\<rparr>"
  have v: "validCivil (2026, 10, 3)" by (simp add: daysInMonth_def)
  have law: "lawfulDateService ?ds validCivil"
    using civil_lawful [OF v] by (simp add: calendarDecades_def)
  have mn: "get_min calendarDecades = getYearStart ?ds (2020, 10, 3)"
    and mx: "get_max calendarDecades = getYearEnd ?ds (2049, 10, 3)"
    and t: "getYear ?ds (2020, 10, 3) \<le> getYear ?ds (today ?ds)"
      "getYear ?ds (today ?ds) \<le> getYear ?ds (2049, 10, 3)"
    and lo: "validCivil (2020, 10, 3)" and hi: "validCivil (2049, 10, 3)"
    by (simp_all add: get_min_def get_max_def calendarDecades_def civilDateService_def
        daysInMonth_def)
  have pg: "isYearPickerPage calendarDecades 2"
    by (simp add: isYearPickerPage_iff get_min_def get_max_def calendarDecades_def
        civilDateService_def)
  have sel: "onYearPickerPagerSelect calendarDecades 2 (initialState calendarDecades) = Some ?s"
    by (simp add: onYearPickerPagerSelect_def initialState_def calendarDecades_def
        civilDateService_def Let_def YEARS_IN_VIEW_def daysInMonth_def)
  have r: "reachable calendarDecades ?s"
    by (rule r_yearPage [OF r_init pg sel])
  show ?thesis
    using visible_date_within_whole_year_bounds [OF law lo hi mn mx t r] law pg sel r by simp
qed

end
